theory Spec2Isabelle
  imports Main "HOL-Library.Word" "HOL-Library.Code_Target_Nat"
begin

section \<open>The PlanetScale driver for Fastly Compute (driver.go)\<close>

text \<open>
  A shallow embedding of \<^verbatim>\<open>driver.go\<close>. Go byte slices and strings are \<open>string\<close>
  (lists of 8-bit characters); a nil slice or pointer is \<open>None\<close> where the source tells
  nil from a value. An operation returns \<open>Ok\<close>, an error value (\<open>Err\<close>) or a run-time
  panic (\<open>Panic\<close>); operations on a connection also return the connection as the call
  leaves it and the list of the requests handed to the transport so far.
\<close>

type_synonym bytes = string

subsection \<open>Errors, panics and results\<close>

datatype error =
    Errorf string             \<comment> \<open>\<^verbatim>\<open>fmt.Errorf\<close>, by its formatted message\<close>
  | unknownError              \<comment> \<open>the package variable \<^verbatim>\<open>unknownError\<close>\<close>
  | EOF                       \<comment> \<open>\<^verbatim>\<open>io.EOF\<close>\<close>
  | CorruptInputError nat     \<comment> \<open>\<^verbatim>\<open>base64.CorruptInputError\<close>, the offset\<close>
  | ErrSyntax string          \<comment> \<open>\<^verbatim>\<open>strconv.NumError\<close> of \<^verbatim>\<open>ParseUint\<close>, invalid syntax\<close>
  | ErrRange string           \<comment> \<open>\<^verbatim>\<open>strconv.NumError\<close> of \<^verbatim>\<open>ParseUint\<close>, value out of range\<close>
  | External string           \<comment> \<open>an error made by the transport, the URL or the JSON library\<close>

datatype panic =
    NilPointerDereference     \<comment> \<open>invalid memory address or nil pointer dereference\<close>
  | SliceBoundsOutOfRange     \<comment> \<open>slice bounds out of range\<close>
  | IndexOutOfRange           \<comment> \<open>index out of range\<close>

datatype 'a res = Ok 'a | Err error | Panic panic

subsection \<open>The JSON tree of fastjson and its accessors\<close>

text \<open>
  A \<^verbatim>\<open>*fastjson.Value\<close> is a \<open>json option\<close>: the accessors accept a nil receiver and
  return nil (or a zero value) for a missing key or a value of another type. Object keys
  and string contents are held unescaped, as the accessors return them; a number is held
  as its text.
\<close>

datatype json =
    JNull | JTrue | JFalse
  | JNumber string
  | JString bytes
  | JArray "json list"
  | JObject "(string \<times> json) list"

type_synonym object = "(string \<times> json) list"

fun digit_val :: "char \<Rightarrow> nat option" where
  "digit_val c =
     (let n = (of_char c :: nat) in if 48 \<le> n \<and> n \<le> 57 then Some (n - 48) else None)"

text \<open>
  \<^verbatim>\<open>strconv.ParseUint(s, 10, 64)\<close>: the loop over the bytes of \<open>s\<close>, with \<open>n\<close> the
  \<^verbatim>\<open>uint64\<close> read so far and the library's two overflow tests.
\<close>

definition cutoff :: "64 word" where
  "cutoff = 1844674407370955162"  \<comment> \<open>\<^verbatim>\<open>maxUint64 / 10 + 1\<close>\<close>

fun parseUint_loop :: "string \<Rightarrow> 64 word \<Rightarrow> string \<Rightarrow> error + 64 word" where
  "parseUint_loop s0 n [] = Inr n"
| "parseUint_loop s0 n (c # cs) =
     (case digit_val c of
        None \<Rightarrow> Inl (ErrSyntax s0)
      | Some d \<Rightarrow>
          if n \<ge> cutoff then Inl (ErrRange s0)
          else let n1 = n * 10 + of_nat d
               in if n1 < n * 10 then Inl (ErrRange s0)
                  else parseUint_loop s0 n1 cs)"

definition ParseUint :: "string \<Rightarrow> error + 64 word" where
  "ParseUint s = (if s = [] then Inl (ErrSyntax s) else parseUint_loop s 0 s)"

text \<open>\<^verbatim>\<open>strconv.Atoi\<close> as \<^verbatim>\<open>Value.Get\<close> uses it on an array: \<open>None\<close> when it fails.\<close>

fun atoi_loop :: "nat \<Rightarrow> string \<Rightarrow> nat option" where
  "atoi_loop n [] = Some n"
| "atoi_loop n (c # cs) =
     (case digit_val c of None \<Rightarrow> None | Some d \<Rightarrow> atoi_loop (n * 10 + d) cs)"

definition Atoi :: "string \<Rightarrow> int option" where
  "Atoi s =
     (let neg = (s \<noteq> [] \<and> hd s = CHR ''-'');
          ds = (if s \<noteq> [] \<and> (hd s = CHR ''-'' \<or> hd s = CHR ''+'') then tl s else s)
      in if ds = [] then None
         else case atoi_loop 0 ds of
                None \<Rightarrow> None
              | Some n \<Rightarrow>
                  let i = (if neg then - int n else int n)
                  in if - (2 ^ 63) \<le> i \<and> i < 2 ^ 63 then Some i else None)"

text \<open>\<^verbatim>\<open>Object.Get(key)\<close>: the value of the first entry with that key, or nil.\<close>

fun object_Get :: "object \<Rightarrow> string \<Rightarrow> json option" where
  "object_Get [] key = None"
| "object_Get ((k, v) # kvs) key = (if k = key then Some v else object_Get kvs key)"

text \<open>\<^verbatim>\<open>Value.Get(key)\<close> with one key: a field of an object, an element of an array.\<close>

fun value_Get :: "json option \<Rightarrow> string \<Rightarrow> json option" where
  "value_Get None key = None"
| "value_Get (Some (JObject kvs)) key = object_Get kvs key"
| "value_Get (Some (JArray a)) key =
     (case Atoi key of
        None \<Rightarrow> None
      | Some n \<Rightarrow> if n < 0 \<or> n \<ge> int (length a) then None else Some (a ! nat n))"
| "value_Get (Some _) key = None"

text \<open>
  The typed accessors, each after the optional \<^verbatim>\<open>Get\<close>: \<open>keys = None\<close> is the call
  without a key.
\<close>

definition value_at :: "json option \<Rightarrow> string option \<Rightarrow> json option" where
  "value_at v key = (case key of None \<Rightarrow> v | Some k \<Rightarrow> value_Get v k)"

definition GetObject :: "json option \<Rightarrow> string option \<Rightarrow> object option" where
  "GetObject v key = (case value_at v key of Some (JObject kvs) \<Rightarrow> Some kvs | _ \<Rightarrow> None)"

definition GetArray :: "json option \<Rightarrow> string option \<Rightarrow> json list" where
  "GetArray v key = (case value_at v key of Some (JArray a) \<Rightarrow> a | _ \<Rightarrow> [])"

definition GetStringBytes :: "json option \<Rightarrow> string option \<Rightarrow> bytes" where
  "GetStringBytes v key = (case value_at v key of Some (JString s) \<Rightarrow> s | _ \<Rightarrow> [])"

text \<open>\<^verbatim>\<open>GetUint\<close>: 0 unless the value is a number whose text is an unsigned integer
  (\<^verbatim>\<open>uint\<close> taken as 64 bits wide).\<close>

definition GetUint :: "json option \<Rightarrow> string option \<Rightarrow> 64 word" where
  "GetUint v key =
     (case value_at v key of
        Some (JNumber s) \<Rightarrow> (case ParseUint s of Inl e \<Rightarrow> 0 | Inr n \<Rightarrow> n)
      | _ \<Rightarrow> 0)"

subsection \<open>Base64, the standard encoding with padding\<close>

definition padChar :: char where
  "padChar = CHR ''=''"

definition is_newline :: "char \<Rightarrow> bool" where
  "is_newline c = (c = CHR 0x0A \<or> c = CHR 0x0D)"

text \<open>\<^verbatim>\<open>decodeMap\<close>: the 6-bit value of a character of the alphabet.\<close>

definition decodeMap :: "char \<Rightarrow> nat option" where
  "decodeMap c =
     (let n = (of_char c :: nat) in
      if 65 \<le> n \<and> n \<le> 90 then Some (n - 65)
      else if 97 \<le> n \<and> n \<le> 122 then Some (n - 71)
      else if 48 \<le> n \<and> n \<le> 57 then Some (n + 4)
      else if n = 43 then Some 62
      else if n = 47 then Some 63
      else None)"

definition DecodedLen :: "nat \<Rightarrow> nat" where
  "DecodedLen n = n div 4 * 3"

text \<open>The first \<open>dlen - 1\<close> bytes of the 24 bits that up to four 6-bit values make.\<close>

definition quantum_bytes :: "nat list \<Rightarrow> bytes" where
  "quantum_bytes dbuf =
     (let d = dbuf @ replicate (4 - length dbuf) 0;
          val = d ! 0 * 2 ^ 18 + d ! 1 * 2 ^ 12 + d ! 2 * 2 ^ 6 + d ! 3
      in take (length dbuf - 1)
           [char_of (val div 2 ^ 16 mod 256), char_of (val div 2 ^ 8 mod 256), char_of (val mod 256)])"

text \<open>
  \<^verbatim>\<open>Encoding.Decode\<close>: \<open>si\<close> is the number of characters consumed, \<open>dbuf\<close> the 6-bit
  values of the quantum in progress. Carriage returns and line feeds are skipped; padding
  ends the input; an error carries the offset the library reports.
\<close>

fun decode_loop :: "nat \<Rightarrow> nat list \<Rightarrow> string \<Rightarrow> error + bytes" where
  "decode_loop si dbuf [] =
     (if dbuf = [] then Inr [] else Inl (CorruptInputError (si - length dbuf)))"
| "decode_loop si dbuf (c # cs) =
     (case decodeMap c of
        Some out \<Rightarrow>
          if length dbuf = 3
          then (case decode_loop (si + 1) [] cs of
                  Inl e \<Rightarrow> Inl e
                | Inr rest \<Rightarrow> Inr (quantum_bytes (dbuf @ [out]) @ rest))
          else decode_loop (si + 1) (dbuf @ [out]) cs
      | None \<Rightarrow>
          if is_newline c then decode_loop (si + 1) dbuf cs
          else if c \<noteq> padChar then Inl (CorruptInputError si)
          else if length dbuf < 2 then Inl (CorruptInputError si)
          else if length dbuf = 2 then
            (let r1 = dropWhile is_newline cs;
                 si1 = si + 1 + (length cs - length r1)
             in case r1 of
                  [] \<Rightarrow> Inl (CorruptInputError si1)
                | p # ps \<Rightarrow>
                    if p \<noteq> padChar then Inl (CorruptInputError (si1 - 1))
                    else
                      let r2 = dropWhile is_newline ps;
                          si2 = si1 + 1 + (length ps - length r2)
                      in if r2 \<noteq> [] then Inl (CorruptInputError si2)
                         else Inr (quantum_bytes dbuf))
          else
            (let r2 = dropWhile is_newline cs;
                 si2 = si + 1 + (length cs - length r2)
             in if r2 \<noteq> [] then Inl (CorruptInputError si2)
                else Inr (quantum_bytes dbuf)))"

definition Decode :: "bytes \<Rightarrow> error + bytes" where
  "Decode src = decode_loop 0 [] src"

subsection \<open>Rows\<close>

record PsRow =
  Values :: "bytes list"

text \<open>
  The inner loop of \<^verbatim>\<open>readRows\<close>. \<open>buf\<close> is the array under \<^verbatim>\<open>dst\<close>, all
  \<^verbatim>\<open>cap(dst)\<close> bytes of it: a slice expression on a slice is checked against the
  capacity. \<open>pos\<close> and \<open>u\<close> are \<^verbatim>\<open>uint64\<close>, so \<open>pos + u\<close> wraps.
\<close>

fun readValues :: "bytes \<Rightarrow> 64 word \<Rightarrow> json list \<Rightarrow> bytes list res" where
  "readValues buf pos [] = Ok []"
| "readValues buf pos (l # ls) =
     (case ParseUint (GetStringBytes (Some l) None) of
        Inl e \<Rightarrow> Err e
      | Inr u \<Rightarrow>
          if pos \<le> pos + u \<and> unat (pos + u) \<le> length buf
          then (case readValues buf (pos + u) ls of
                  Ok vals \<Rightarrow> Ok (take (unat (pos + u) - unat pos) (drop (unat pos) buf) # vals)
                | Err e \<Rightarrow> Err e
                | Panic p \<Rightarrow> Panic p)
          else Panic SliceBoundsOutOfRange)"

text \<open>
  The body of the outer loop, for one element of the \<^verbatim>\<open>rows\<close> array. \<^verbatim>\<open>make\<close> gives
  \<^verbatim>\<open>DecodedLen(len(b))\<close> zero bytes, \<^verbatim>\<open>Decode\<close> writes the first \<open>n\<close> of them.
\<close>

definition readRow :: "json \<Rightarrow> PsRow res" where
  "readRow v =
     (let b = GetStringBytes (Some v) (Some ''values'')
      in case Decode b of
           Inl e \<Rightarrow> Err e
         | Inr blob \<Rightarrow>
             let buf = blob @ replicate (DecodedLen (length b) - length blob) (CHR 0x00);
                 lengths = GetArray (Some v) (Some ''lengths'')
             in case readValues buf 0 lengths of
                  Ok vals \<Rightarrow> Ok \<lparr>Values = vals\<rparr>
                | Err e \<Rightarrow> Err e
                | Panic p \<Rightarrow> Panic p)"

fun readRows_loop :: "json list \<Rightarrow> PsRow list res" where
  "readRows_loop [] = Ok []"
| "readRows_loop (v # vs) =
     (case readRow v of
        Err e \<Rightarrow> Err e
      | Panic p \<Rightarrow> Panic p
      | Ok row \<Rightarrow>
          (case readRows_loop vs of
             Ok rows \<Rightarrow> Ok (row # rows)
           | Err e \<Rightarrow> Err e
           | Panic p \<Rightarrow> Panic p))"

definition readRows :: "json option \<Rightarrow> PsRow list res" where
  "readRows v =
     (if v = None then Err (Errorf ''missing rows'')
      else readRows_loop (GetArray v None))"

text \<open>What the loop body reads from a row element: the encoded text (line 161) and the
  result of parsing each length (lines 169 to 175).\<close>

definition row_values :: "json \<Rightarrow> bytes" where
  "row_values v = GetStringBytes (Some v) (Some ''values'')"

definition row_lengths :: "json \<Rightarrow> (error + 64 word) list" where
  "row_lengths v =
     map (\<lambda>l. ParseUint (GetStringBytes (Some l) None)) (GetArray (Some v) (Some ''lengths''))"

subsection \<open>The collaborators: transport, URL parsing, JSON parsing and printing\<close>

datatype go_context = Background | Cancellable nat

datatype driver_Value = VNil | VInt int | VBool bool | VBytes bytes | VString string

record Request =
  Method :: string
  URL :: string
  Header :: "(string \<times> string) list"
  Body :: bytes

text \<open>What \<^verbatim>\<open>io.ReadAll(resp.Body)\<close> gives, and what \<^verbatim>\<open>req.Send\<close> gives.\<close>

datatype read_result = Bytes bytes | ReadFailure string

datatype send_result = SendFailure error | Response int read_result

text \<open>The requests handed to the transport so far, each with the backend it went to.\<close>

type_synonym traffic = "(string \<times> Request) list"

text \<open>
  The code outside this file is a parameter of the model: whether \<^verbatim>\<open>fsthttp.NewRequest\<close>
  rejects a URL, what the backend answers to the latest request of a history, what
  \<^verbatim>\<open>fastjson.Parser.ParseBytes\<close> makes of a body, what \<^verbatim>\<open>json.Marshal\<close> makes of the
  query text, and the bytes \<^verbatim>\<open>Object.MarshalTo\<close> appends for an object.
\<close>

record env =
  url_Parse :: "string \<Rightarrow> error option"
  Send :: "go_context \<Rightarrow> traffic \<Rightarrow> send_result"
  ParseBytes :: "bytes \<Rightarrow> error + json"
  json_Marshal :: "string \<Rightarrow> error + bytes"
  marshal_object :: "object \<Rightarrow> bytes"

text \<open>\<^verbatim>\<open>(*Object).MarshalTo(dst)\<close>: it reads the fields of its receiver, so a nil receiver
  panics.\<close>

definition MarshalTo :: "env \<Rightarrow> object option \<Rightarrow> bytes \<Rightarrow> bytes res" where
  "MarshalTo E ob dst =
     (case ob of None \<Rightarrow> Panic NilPointerDereference | Some kvs \<Rightarrow> Ok (dst @ marshal_object E kvs))"

subsection \<open>Constants and formatting\<close>

definition apiPrefix :: string where
  "apiPrefix = ''/psdb.v1alpha1.Database''"

definition executorEndpoint :: string where
  "executorEndpoint = apiPrefix @ ''/Execute''"

definition sessionEndpoint :: string where
  "sessionEndpoint = apiPrefix @ ''/CreateSession''"

definition executorMethod :: string where
  "executorMethod = ''POST''"

definition jsonContentType :: string where
  "jsonContentType = ''application/json''"

definition userAgent :: string where
  "userAgent = ''database-go''"

definition StatusOK :: int where
  "StatusOK = 200"

text \<open>The verb \<^verbatim>\<open>%d\<close>.\<close>

fun dec_nat :: "nat \<Rightarrow> string" where
  "dec_nat n =
     (if n < 10 then [char_of (48 + n)] else dec_nat (n div 10) @ [char_of (48 + n mod 10)])"

declare dec_nat.simps [simp del]

definition dec_int :: "int \<Rightarrow> string" where
  "dec_int i = (if i < 0 then CHR ''-'' # dec_nat (nat (- i)) else dec_nat (nat i))"

text \<open>\<^verbatim>\<open>base64.StdEncoding.EncodeToString\<close>.\<close>

definition encodeStd :: string where
  "encodeStd = ''ABCDEFGHIJKLMNOPQRSTUVWXYZabcdefghijklmnopqrstuvwxyz0123456789+/''"

fun EncodeToString :: "bytes \<Rightarrow> string" where
  "EncodeToString [] = []"
| "EncodeToString [a] =
     (let x = (of_char a :: nat)
      in [encodeStd ! (x div 4), encodeStd ! (x mod 4 * 16), padChar, padChar])"
| "EncodeToString [a, b] =
     (let x = (of_char a :: nat); y = (of_char b :: nat)
      in [encodeStd ! (x div 4), encodeStd ! (x mod 4 * 16 + y div 16),
          encodeStd ! (y mod 16 * 4), padChar])"
| "EncodeToString (a # b # c # rest) =
     (let x = (of_char a :: nat); y = (of_char b :: nat); z = (of_char c :: nat)
      in [encodeStd ! (x div 4), encodeStd ! (x mod 4 * 16 + y div 16),
          encodeStd ! (y mod 16 * 4 + z div 64), encodeStd ! (z mod 64)]
         @ EncodeToString rest)"

subsection \<open>Connections\<close>

record PsConn =
  username :: string
  password :: string
  host :: string
  backend :: string
  session :: "bytes option"

record PsField =
  Name :: string
  Type :: string
  Table :: string
  ColumnLength :: "64 word"
  Charset :: "64 word"
  Flags :: "64 word"

record PsResults =
  Fields :: "PsField list"
  Rows :: "PsRow list"
  pos :: int

text \<open>
  \<^verbatim>\<open>Prepare\<close>, \<^verbatim>\<open>Begin\<close> and \<^verbatim>\<open>Rollback\<close>, in the shape of every operation on a
  connection: the result, the connection and the traffic after the call.
\<close>

definition Prepare :: "PsConn \<Rightarrow> string \<Rightarrow> traffic \<Rightarrow> unit res \<times> PsConn \<times> traffic" where
  "Prepare c query t = (Err (Errorf ''Prepare method not implemented''), c, t)"

definition Begin :: "PsConn \<Rightarrow> traffic \<Rightarrow> unit res \<times> PsConn \<times> traffic" where
  "Begin c t = (Err (Errorf ''Begin method not implemented''), c, t)"

definition Rollback :: "PsConn \<Rightarrow> traffic \<Rightarrow> unit res \<times> PsConn \<times> traffic" where
  "Rollback c t = (Err (Errorf ''Rollback method not implemented''), c, t)"

text \<open>\<^verbatim>\<open>Close\<close> has a value receiver: it sets the session of its own copy of the
  connection to nil, and the caller's connection keeps its session.\<close>

definition Close :: "PsConn \<Rightarrow> traffic \<Rightarrow> unit res \<times> PsConn \<times> traffic" where
  "Close c t = (Ok (), c, t)"

definition buildRequest :: "env \<Rightarrow> PsConn \<Rightarrow> string \<Rightarrow> bytes \<Rightarrow> error + Request" where
  "buildRequest E c endpoint body =
     (let u = ''https://'' @ host c @ endpoint
      in case url_Parse E u of
           Some e \<Rightarrow> Inl e
         | None \<Rightarrow>
             let auth = EncodeToString (username c @ '':'' @ password c)
             in Inr \<lparr>Method = executorMethod, URL = u,
                     Header = [(''Host'', host c), (''Content-Type'', jsonContentType),
                               (''User-Agent'', userAgent), (''Authorization'', ''Basic '' @ auth)],
                     Body = body\<rparr>)"

definition sendRequest ::
  "env \<Rightarrow> go_context \<Rightarrow> PsConn \<Rightarrow> Request \<Rightarrow> traffic \<Rightarrow> (error + bytes) \<times> traffic" where
  "sendRequest E ctx c req t =
     (let t' = t @ [(backend c, req)]
      in case Send E ctx t' of
           SendFailure e \<Rightarrow> (Inl e, t')
         | Response status rb \<Rightarrow>
             (case rb of
                ReadFailure msg \<Rightarrow>
                  (Inl (Errorf (''planetscale API error reading response body: '' @ msg)), t')
              | Bytes respBody \<Rightarrow>
                  if status \<noteq> StatusOK
                  then (Inl (Errorf (''planetscale API error: '' @ dec_int status
                                      @ [CHR 0x0A] @ respBody)), t')
                  else (Inr respBody, t')))"

definition readFields :: "json option \<Rightarrow> PsField list res" where
  "readFields f =
     (if f = None then Err (Errorf ''missing fields'')
      else Ok (map (\<lambda>v. \<lparr>Name = GetStringBytes (Some v) (Some ''name''),
                          Type = GetStringBytes (Some v) (Some ''type''),
                          Table = GetStringBytes (Some v) (Some ''table''),
                          ColumnLength = GetUint (Some v) (Some ''columnLength''),
                          Charset = GetUint (Some v) (Some ''charset''),
                          Flags = GetUint (Some v) (Some ''flags'')\<rparr>)
                 (GetArray f None)))"

text \<open>
  \<^verbatim>\<open>refreshSession\<close>. The error of \<^verbatim>\<open>ParseBytes\<close> is assigned and not tested, and \<open>v\<close>
  is nil when parsing failed; the session is set to the empty slice before
  \<^verbatim>\<open>MarshalTo\<close> is called on what \<^verbatim>\<open>GetObject\<close> returned.
\<close>

definition refreshSession ::
  "env \<Rightarrow> go_context \<Rightarrow> PsConn \<Rightarrow> traffic \<Rightarrow> unit res \<times> PsConn \<times> traffic" where
  "refreshSession E ctx c t =
     (case buildRequest E c sessionEndpoint ''{}'' of
        Inl e \<Rightarrow> (Err e, c, t)
      | Inr req \<Rightarrow>
          (case sendRequest E ctx c req t of
             (Inl e, t') \<Rightarrow> (Err e, c, t')
           | (Inr respBody, t') \<Rightarrow>
               let v = (case ParseBytes E respBody of Inl e \<Rightarrow> None | Inr j \<Rightarrow> Some j);
                   c1 = c\<lparr>session := Some []\<rparr>
               in case MarshalTo E (GetObject v (Some ''session'')) [] of
                    Ok s \<Rightarrow> (Ok (), c1\<lparr>session := Some s\<rparr>, t')
                  | Err e \<Rightarrow> (Err e, c1, t')
                  | Panic p \<Rightarrow> (Panic p, c1, t')))"

text \<open>The part of \<^verbatim>\<open>QueryContext\<close> after the response was parsed (lines 242 to 270).
  The session object is not nil where \<^verbatim>\<open>MarshalTo\<close> is called on it, and the slice it
  appends to is empty.\<close>

definition readResponse :: "env \<Rightarrow> json \<Rightarrow> PsConn \<Rightarrow> PsResults res \<times> PsConn" where
  "readResponse E v c =
     (let c1 = (case GetObject (Some v) (Some ''session'') of
                  None \<Rightarrow> c
                | Some sess \<Rightarrow> c\<lparr>session := Some ([] @ marshal_object E sess)\<rparr>)
      in case GetObject (Some v) (Some ''error'') of
           Some jsonErr \<Rightarrow>
             (case object_Get jsonErr ''message'' of
                Some msg \<Rightarrow> (Err (Errorf (GetStringBytes (Some msg) None)), c1)
              | None \<Rightarrow> (Err unknownError, c1))
         | None \<Rightarrow>
             (case GetObject (Some v) (Some ''result'') of
                None \<Rightarrow> (Err (Errorf ''no result''), c1)
              | Some result \<Rightarrow>
                  (case readFields (object_Get result ''fields'') of
                     Err e \<Rightarrow> (Err e, c1)
                   | Panic p \<Rightarrow> (Panic p, c1)
                   | Ok f \<Rightarrow>
                       (case readRows (object_Get result ''rows'') of
                          Err e \<Rightarrow> (Err e, c1)
                        | Panic p \<Rightarrow> (Panic p, c1)
                        | Ok r \<Rightarrow> (Ok \<lparr>Fields = f, Rows = r, pos = 0\<rparr>, c1)))))"

text \<open>The execute exchange: \<^verbatim>\<open>QueryContext\<close> from line 215 on.\<close>

definition execute ::
  "env \<Rightarrow> go_context \<Rightarrow> string \<Rightarrow> PsConn \<Rightarrow> traffic \<Rightarrow> PsResults res \<times> PsConn \<times> traffic" where
  \<open>execute E ctx query c t =
     (case json_Marshal E query of
        Inl e \<Rightarrow> (Err e, c, t)
      | Inr q \<Rightarrow>
          let body = ''{"query":'' @ q @ '',"session":''
                     @ (case session c of None \<Rightarrow> [] | Some s \<Rightarrow> s) @ ''}''
          in case buildRequest E c executorEndpoint body of
               Inl e \<Rightarrow> (Err e, c, t)
             | Inr req \<Rightarrow>
                 (case sendRequest E ctx c req t of
                    (Inl e, t') \<Rightarrow> (Err e, c, t')
                  | (Inr resp, t') \<Rightarrow>
                      (case ParseBytes E resp of
                         Inl e \<Rightarrow> (Err e, c, t')
                       | Inr v \<Rightarrow>
                           (case readResponse E v c of (r, c') \<Rightarrow> (r, c', t')))))\<close>

definition QueryContext ::
  "env \<Rightarrow> go_context \<Rightarrow> string \<Rightarrow> driver_Value list \<Rightarrow> PsConn \<Rightarrow> traffic
     \<Rightarrow> PsResults res \<times> PsConn \<times> traffic" where
  "QueryContext E ctx query args c t =
     (if session c = None
      then (case refreshSession E ctx c t of
              (Err e, c', t') \<Rightarrow> (Err e, c', t')
            | (Panic p, c', t') \<Rightarrow> (Panic p, c', t')
            | (Ok u, c', t') \<Rightarrow> execute E ctx query c' t')
      else execute E ctx query c t)"

definition Query ::
  "env \<Rightarrow> string \<Rightarrow> driver_Value list \<Rightarrow> PsConn \<Rightarrow> traffic
     \<Rightarrow> PsResults res \<times> PsConn \<times> traffic" where
  "Query E query args c t = QueryContext E Background query args c t"

text \<open>The session-creation requests among some traffic of a connection.\<close>

definition session_exchanges :: "PsConn \<Rightarrow> traffic \<Rightarrow> traffic" where
  "session_exchanges c t =
     filter (\<lambda>x. URL (snd x) = ''https://'' @ host c @ sessionEndpoint) t"

subsection \<open>The result cursor\<close>

definition Columns :: "PsResults \<Rightarrow> string list" where
  "Columns r = map Name (Fields r)"

text \<open>The loop of \<^verbatim>\<open>Next\<close>: \<^verbatim>\<open>dest[i] = row.Values[i]\<close> for every value of the row.\<close>

fun copyValues :: "bytes list \<Rightarrow> driver_Value list \<Rightarrow> driver_Value list res" where
  "copyValues [] dest = Ok dest"
| "copyValues (v # vs) [] = Panic IndexOutOfRange"
| "copyValues (v # vs) (d # dest) =
     (case copyValues vs dest of
        Ok dest' \<Rightarrow> Ok (VBytes v # dest')
      | Err e \<Rightarrow> Err e
      | Panic p \<Rightarrow> Panic p)"

text \<open>The cursor position is a Go \<^verbatim>\<open>int\<close>, 64 bits wide: \<open>r.pos + 1\<close> wraps.\<close>

definition int64 :: "int \<Rightarrow> int" where
  "int64 i = (i + 2 ^ 63) mod 2 ^ 64 - 2 ^ 63"

text \<open>\<^verbatim>\<open>Next\<close> returns the cursor and the destination as it leaves them; after a panic
  they are returned as they were.\<close>

definition Next ::
  "PsResults \<Rightarrow> driver_Value list \<Rightarrow> unit res \<times> PsResults \<times> driver_Value list" where
  "Next r dest =
     (if int64 (pos r + 1) > int (length (Rows r)) then (Err EOF, r, dest)
      else if pos r < 0 \<or> int (length (Rows r)) \<le> pos r then (Panic IndexOutOfRange, r, dest)
      else case copyValues (Values (Rows r ! nat (pos r))) dest of
             Ok dest' \<Rightarrow> (Ok (), r\<lparr>pos := int64 (pos r + 1)\<rparr>, dest')
           | Err e \<Rightarrow> (Err e, r, dest)
           | Panic p \<Rightarrow> (Panic p, r, dest))"

text \<open>One call of \<^verbatim>\<open>Next\<close> as a step on the cursor and the destination.\<close>

definition Next_step :: "PsResults \<times> driver_Value list \<Rightarrow> PsResults \<times> driver_Value list" where
  "Next_step s = snd (Next (fst s) (snd s))"

subsection \<open>A small world to run the driver in\<close>

text \<open>
  A backend for concrete runs. The JSON library is a finite table of documents, each text
  beside its tree; \<^verbatim>\<open>json.Marshal\<close> quotes a query that needs no escaping; the backend
  answers a session request with one fixed response and every other request with
  another.
\<close>

definition example_session1 :: bytes where
  \<open>example_session1 = ''{"id":"s1"}''\<close>

definition example_session2 :: bytes where
  \<open>example_session2 = ''{"id":"s2"}''\<close>

text \<open>Three bodies the backend may answer with, each with its tree: a new session; an
  error beside a new session and a result without fields; and a result of two columns and
  one row beside a new session.\<close>

definition example_created_body :: bytes where
  \<open>example_created_body = ''{"session":{"id":"s1"}}''\<close>

definition example_created_tree :: json where
  "example_created_tree = JObject [(''session'', JObject [(''id'', JString ''s1'')])]"

definition example_failed_body :: bytes where
  \<open>example_failed_body = ''{"session":{"id":"s2"},"error":{"message":"boom"},"result":{}}''\<close>

definition example_failed_tree :: json where
  "example_failed_tree =
     JObject [(''session'', JObject [(''id'', JString ''s2'')]),
              (''error'', JObject [(''message'', JString ''boom'')]),
              (''result'', JObject [])]"

definition example_answered_body :: bytes where
  \<open>example_answered_body =
     ''{"session":{"id":"s2"},"result":{"fields":[{"name":"a"},{"name":"b"}],"rows":[{"lengths":["1","2"],"values":"YWJj"}]}}''\<close>

definition example_answered_tree :: json where
  "example_answered_tree =
     JObject [(''session'', JObject [(''id'', JString ''s2'')]),
              (''result'',
               JObject [(''fields'', JArray [JObject [(''name'', JString ''a'')],
                                             JObject [(''name'', JString ''b'')]]),
                        (''rows'', JArray [JObject [(''lengths'', JArray [JString ''1'', JString ''2'']),
                                                    (''values'', JString ''YWJj'')]])])]"

definition example_documents :: "(bytes \<times> json) list" where
  "example_documents =
     [(''{}'', JObject []),
      (example_session1, JObject [(''id'', JString ''s1'')]),
      (example_session2, JObject [(''id'', JString ''s2'')]),
      (example_created_body, example_created_tree),
      (example_failed_body, example_failed_tree),
      (example_answered_body, example_answered_tree)]"

definition example_ParseBytes :: "bytes \<Rightarrow> error + json" where
  "example_ParseBytes b =
     (case map_of example_documents b of
        None \<Rightarrow> Inl (External ''cannot parse JSON'')
      | Some j \<Rightarrow> Inr j)"

definition example_marshal_object :: "object \<Rightarrow> bytes" where
  "example_marshal_object kvs =
     (case find (\<lambda>d. snd d = JObject kvs) example_documents of
        None \<Rightarrow> ''{}''
      | Some d \<Rightarrow> fst d)"

definition example_env :: "send_result \<Rightarrow> send_result \<Rightarrow> env" where
  "example_env created executed =
     \<lparr>url_Parse = (\<lambda>u. None),
      Send = (\<lambda>ctx t. if t \<noteq> [] \<and> URL (snd (last t)) = ''https://db.example'' @ sessionEndpoint
                       then created else executed),
      ParseBytes = example_ParseBytes,
      json_Marshal = (\<lambda>q. Inr ([CHR 0x22] @ q @ [CHR 0x22])),
      marshal_object = example_marshal_object\<rparr>"

definition example_conn :: PsConn where
  "example_conn =
     \<lparr>username = ''u'', password = ''p'', host = ''db.example'', backend = ''origin'',
      session = None\<rparr>"

definition example_row :: "bytes \<Rightarrow> string list \<Rightarrow> json" where
  "example_row vals lens =
     JObject [(''lengths'', JArray (map JString lens)), (''values'', JString vals)]"

definition example_request :: Request where
  "example_request =
     \<lparr>Method = ''POST'', URL = ''https://db.example'' @ executorEndpoint, Header = [],
      Body = ''{}''\<rparr>"

definition example_created :: send_result where
  "example_created = Response 200 (Bytes example_created_body)"

definition example_failed :: send_result where
  "example_failed = Response 200 (Bytes example_failed_body)"

definition example_answered :: send_result where
  "example_answered = Response 200 (Bytes example_answered_body)"

definition example_session_request :: Request where
  "example_session_request =
     \<lparr>Method = ''POST'', URL = ''https://db.example/psdb.v1alpha1.Database/CreateSession'',
      Header = [(''Host'', ''db.example''), (''Content-Type'', ''application/json''),
                (''User-Agent'', ''database-go''), (''Authorization'', ''Basic dTpw'')],
      Body = ''{}''\<rparr>"

definition example_execute_request :: "bytes \<Rightarrow> Request" where
  "example_execute_request body =
     \<lparr>Method = ''POST'', URL = ''https://db.example/psdb.v1alpha1.Database/Execute'',
      Header = [(''Host'', ''db.example''), (''Content-Type'', ''application/json''),
                (''User-Agent'', ''database-go''), (''Authorization'', ''Basic dTpw'')],
      Body = body\<rparr>"

section \<open>Row decoding\<close>

subsection \<open>The decoded bytes fit the buffer\<close>

lemma length_quantum_bytes: "length (quantum_bytes dbuf) = min 3 (length dbuf - 1)"
  by (simp add: quantum_bytes_def Let_def)

lemma decode_loop_length:
  "decode_loop si dbuf cs = Inr out \<Longrightarrow> length dbuf \<le> 3 \<Longrightarrow>
   length out \<le> 3 * ((length dbuf + length cs) div 4)"
proof (induction si dbuf cs arbitrary: out rule: decode_loop.induct)
  case (1 si dbuf)
  then show ?case by (simp split: if_splits)
next
  case (2 si dbuf c cs)
  show ?case
  proof (cases "decodeMap c")
    case (Some v)
    show ?thesis
    proof (cases "length dbuf = 3")
      case True
      with Some "2.prems" obtain rest where r: "decode_loop (si + 1) [] cs = Inr rest"
        and o: "out = quantum_bytes (dbuf @ [v]) @ rest"
        by (auto split: sum.splits)
      from "2.IH"(2)[OF Some True r] have "length rest \<le> 3 * (length cs div 4)" by simp
      moreover have "(4 + length cs) div 4 = 1 + length cs div 4" by simp
      ultimately show ?thesis using o True by (simp add: length_quantum_bytes)
    next
      case False
      with Some "2.prems" have r: "decode_loop (si + 1) (dbuf @ [v]) cs = Inr out" by simp
      from False "2.prems" have "length (dbuf @ [v]) \<le> 3" by simp
      from "2.IH"(3)[OF Some False r this] show ?thesis by simp
    qed
  next
    case None
    show ?thesis
    proof (cases "is_newline c")
      case True
      with None "2.prems" have r: "decode_loop (si + 1) dbuf cs = Inr out" by simp
      from "2.IH"(1)[OF None True r "2.prems"(2)]
      have "length out \<le> 3 * ((length dbuf + length cs) div 4)" .
      also have "\<dots> \<le> 3 * ((length dbuf + length (c # cs)) div 4)"
        by (simp add: div_le_mono)
      finally show ?thesis .
    next
      case False
      with None "2.prems" have o: "out = quantum_bytes dbuf" and l: "2 \<le> length dbuf"
        by (auto simp: Let_def split: if_splits list.splits)
      show ?thesis
      proof (cases "length dbuf = 2")
        case True
        with None False "2.prems" have "cs \<noteq> []"
          by (auto simp: Let_def split: if_splits list.splits)
        then have "1 \<le> length cs" by (cases cs) auto
        with True o show ?thesis by (simp add: length_quantum_bytes)
      next
        case F2: False
        with l "2.prems" have "length dbuf = 3" by simp
        moreover have "(4 + length cs) div 4 = 1 + length cs div 4" by simp
        ultimately show ?thesis using o by (simp add: length_quantum_bytes)
      qed
    qed
  qed
qed

lemma Decode_length: "Decode src = Inr blob \<Longrightarrow> length blob \<le> DecodedLen (length src)"
  using decode_loop_length[of 0 "[]" src blob] by (simp add: Decode_def DecodedLen_def mult.commute)

subsection \<open>Slicing the buffer by the lengths\<close>

lemma readValues_within:
  assumes "map (\<lambda>l. ParseUint (GetStringBytes (Some l) None)) ls = map Inr us"
    and "unat p + sum_list (map unat us) \<le> length buf"
    and "length buf < 2 ^ 64"
  shows "\<exists>vals. readValues buf p ls = Ok vals \<and> map length vals = map unat us \<and>
           concat vals = take (sum_list (map unat us)) (drop (unat p) buf)"
  using assms
proof (induction ls arbitrary: p us)
  case Nil
  then show ?case by simp
next
  case (Cons l ls)
  from Cons.prems(1) obtain u us' where us: "us = u # us'"
    and pu: "ParseUint (GetStringBytes (Some l) None) = Inr u"
    and rest: "map (\<lambda>l. ParseUint (GetStringBytes (Some l) None)) ls = map Inr us'"
    by (cases us) auto
  from Cons.prems(2,3) us have small: "unat p + unat u < 2 ^ 64" by simp
  then have add: "unat (p + u) = unat p + unat u"
    using unat_add_lem[of p u] by simp
  from small have le: "p \<le> p + u"
    using no_olen_add_nat[of p u] by simp
  from Cons.prems(2) us add have fit: "unat (p + u) \<le> length buf" by simp
  from Cons.prems(2) us add
  have "unat (p + u) + sum_list (map unat us') \<le> length buf" by simp
  from Cons.IH[OF rest this Cons.prems(3)] obtain vals where
    v: "readValues buf (p + u) ls = Ok vals"
    and lv: "map length vals = map unat us'"
    and cv: "concat vals = take (sum_list (map unat us')) (drop (unat (p + u)) buf)"
    by blast
  from Cons.prems(2) us have ub: "unat p + unat u \<le> length buf" by simp
  have split: "take (unat u + sum_list (map unat us')) (drop (unat p) buf) =
        take (unat u) (drop (unat p) buf) @
        take (sum_list (map unat us')) (drop (unat p + unat u) buf)"
    by (simp add: take_add add.commute)
  from ub have len1: "length (take (unat u) (drop (unat p) buf)) = unat u" by simp
  show ?case
    using pu le fit v lv cv add us split len1 by simp
qed

lemma readRow_within:
  assumes dec: "Decode (row_values v) = Inr blob"
    and lens: "row_lengths v = map Inr us"
    and sum: "sum_list (map unat us) \<le> length blob"
    and size: "length (row_values v) < 2 ^ 63"
  shows "\<exists>vals. readRow v = Ok \<lparr>Values = vals\<rparr> \<and> map length vals = map unat us \<and>
           concat vals = take (sum_list (map unat us)) blob"
proof -
  let ?b = "GetStringBytes (Some v) (Some ''values'')"
  let ?buf = "blob @ replicate (DecodedLen (length ?b) - length blob) (CHR 0x00)"
  from dec have bl: "length blob \<le> DecodedLen (length ?b)"
    by (simp add: row_values_def Decode_length)
  have "DecodedLen (length ?b) \<le> length ?b" by (simp add: DecodedLen_def)
  with size bl have small: "length ?buf < 2 ^ 64" by (simp add: row_values_def)
  from sum have fit: "unat (0 :: 64 word) + sum_list (map unat us) \<le> length ?buf" by simp
  from lens have l: "map (\<lambda>l. ParseUint (GetStringBytes (Some l) None))
      (GetArray (Some v) (Some ''lengths'')) = map Inr us"
    by (simp add: row_lengths_def)
  from readValues_within[OF l fit small] obtain vals where
    rv: "readValues ?buf 0 (GetArray (Some v) (Some ''lengths'')) = Ok vals"
    and lv: "map length vals = map unat us"
    and cv: "concat vals = take (sum_list (map unat us)) (drop (unat (0 :: 64 word)) ?buf)"
    by blast
  from cv sum have "concat vals = take (sum_list (map unat us)) blob" by simp
  moreover from dec rv have "readRow v = Ok \<lparr>Values = vals\<rparr>"
    by (simp add: readRow_def row_values_def Let_def)
  ultimately show ?thesis using lv by blast
qed

lemma readRows_within:
  assumes "list_all2 (\<lambda>v (blob, us). Decode (row_values v) = Inr blob \<and>
              row_lengths v = map Inr us \<and> sum_list (map unat us) \<le> length blob \<and>
              length (row_values v) < 2 ^ 63) r specs"
  shows "\<exists>rows. readRows_loop r = Ok rows \<and>
           list_all2 (\<lambda>row (blob, us). map length (Values row) = map unat us \<and>
              concat (Values row) = take (sum_list (map unat us)) blob) rows specs"
  using assms
proof (induction r specs rule: list_all2_induct)
  case Nil
  then show ?case by simp
next
  case (Cons v r sp specs)
  obtain blob us where sp: "sp = (blob, us)" by (cases sp)
  with Cons.hyps(1) have h: "Decode (row_values v) = Inr blob" "row_lengths v = map Inr us"
    "sum_list (map unat us) \<le> length blob" "length (row_values v) < 2 ^ 63"
    by auto
  from readRow_within[OF h] obtain vals where
    v: "readRow v = Ok \<lparr>Values = vals\<rparr>" and lv: "map length vals = map unat us"
    and cv: "concat vals = take (sum_list (map unat us)) blob"
    by blast
  from Cons.IH obtain rows where r: "readRows_loop r = Ok rows"
    and all: "list_all2 (\<lambda>row (blob, us). map length (Values row) = map unat us \<and>
              concat (Values row) = take (sum_list (map unat us)) blob) rows specs"
    by blast
  from v r have "readRows_loop (v # r) = Ok (\<lparr>Values = vals\<rparr> # rows)" by simp
  with lv cv all sp show ?case by simp
qed

text \<open>The only errors of row decoding are those of \<^verbatim>\<open>Decode\<close> and of \<^verbatim>\<open>ParseUint\<close>:
  no error reports a sum of lengths that differs from the number of decoded bytes.\<close>

lemma readValues_error:
  "readValues buf p ls = Err e \<Longrightarrow>
   Inl e \<in> set (map (\<lambda>l. ParseUint (GetStringBytes (Some l) None)) ls)"
proof (induction ls arbitrary: p)
  case Nil
  then show ?case by simp
next
  case (Cons l ls)
  then show ?case
    by (auto split: sum.splits if_splits res.splits)
qed

lemma readRow_error:
  "readRow v = Err e \<Longrightarrow> Decode (row_values v) = Inl e \<or> Inl e \<in> set (row_lengths v)"
  by (auto simp: readRow_def row_values_def row_lengths_def Let_def
      split: sum.splits res.splits dest: readValues_error)

text \<open>
  C1, as the code has it: \<^verbatim>\<open>readRows\<close> never compares the sum of the lengths with the
  length of the decoded bytes. When every row's text decodes, every length parses and the
  lengths of a row sum to at most the number of its decoded bytes, \<^verbatim>\<open>readRows\<close> returns
  the rows without an error: row by row one value per length, of that length, the values
  together being the first \<open>sum(lengths)\<close> decoded bytes. The bytes after them are left
  unread. (\<open>specs\<close> lists the decoded bytes and the parsed lengths of each row; a Go
  slice holds fewer than \<open>2 ^ 63\<close> bytes.)
\<close>

theorem readRows_short_lengths:
  assumes "list_all2 (\<lambda>v (blob, us). Decode (row_values v) = Inr blob \<and>
              row_lengths v = map Inr us \<and> sum_list (map unat us) \<le> length blob \<and>
              length (row_values v) < 2 ^ 63) r specs"
  shows "\<exists>rows. readRows (Some (JArray r)) = Ok rows \<and>
           list_all2 (\<lambda>row (blob, us). length (Values row) = length us \<and>
              map length (Values row) = map unat us \<and>
              concat (Values row) = take (sum_list (map unat us)) blob) rows specs"
proof -
  from readRows_within[OF assms] obtain rows where r: "readRows_loop r = Ok rows"
    and all: "list_all2 (\<lambda>row (blob, us). map length (Values row) = map unat us \<and>
              concat (Values row) = take (sum_list (map unat us)) blob) rows specs"
    by blast
  have "\<And>row sp. (case sp of (blob, us) \<Rightarrow> map length (Values row) = map unat us \<and>
              concat (Values row) = take (sum_list (map unat us)) blob) \<Longrightarrow>
          (case sp of (blob, us) \<Rightarrow> length (Values row) = length us \<and>
              map length (Values row) = map unat us \<and>
              concat (Values row) = take (sum_list (map unat us)) blob)"
    by (auto dest: map_eq_imp_length_eq)
  with all have "list_all2 (\<lambda>row (blob, us). length (Values row) = length us \<and>
              map length (Values row) = map unat us \<and>
              concat (Values row) = take (sum_list (map unat us)) blob) rows specs"
    by (rule list_all2_mono)
  moreover from r have "readRows (Some (JArray r)) = Ok rows"
    by (simp add: readRows_def GetArray_def value_at_def)
  ultimately show ?thesis by blast
qed

text \<open>The row \<open>YWJj\<close> (the bytes \<open>abc\<close>) with the one length 1.\<close>

theorem readRows_short_lengths_witness:
  "list_all2 (\<lambda>v (blob, us). Decode (row_values v) = Inr blob \<and>
      row_lengths v = map Inr us \<and> sum_list (map unat us) \<le> length blob \<and>
      length (row_values v) < 2 ^ 63) [example_row ''YWJj'' [''1'']] [(''abc'', [1 :: 64 word])] \<and>
   (\<exists>rows. readRows (Some (JArray [example_row ''YWJj'' [''1'']])) = Ok rows \<and>
      list_all2 (\<lambda>row (blob, us). length (Values row) = length us \<and>
         map length (Values row) = map unat us \<and>
         concat (Values row) = take (sum_list (map unat us)) blob) rows [(''abc'', [1 :: 64 word])])"
proof -
  have d: "Decode (row_values (example_row ''YWJj'' [''1''])) = Inr ''abc''"
    by code_simp
  have l: "row_lengths (example_row ''YWJj'' [''1'']) = map Inr [1]"
    by code_simp
  have n: "length (row_values (example_row ''YWJj'' [''1''])) < 2 ^ 63"
    by (simp add: row_values_def example_row_def GetStringBytes_def value_at_def)
  have h: "list_all2 (\<lambda>v (blob, us). Decode (row_values v) = Inr blob \<and>
      row_lengths v = map Inr us \<and> sum_list (map unat us) \<le> length blob \<and>
      length (row_values v) < 2 ^ 63) [example_row ''YWJj'' [''1'']] [(''abc'', [1 :: 64 word])]"
    using d l n by simp
  from h readRows_short_lengths [OF h] show ?thesis by blast
qed

text \<open>
  C1 as stated fails: the lengths of the first row sum to 1, the row decodes to the three
  bytes \<open>abc\<close>, and \<^verbatim>\<open>readRows\<close> returns the row with the one value \<open>a\<close>; the length of
  the second row is 4, and the slice expression panics.
\<close>

theorem readRows_length_mismatch_counterexample:
  "Decode ''YWJj'' = Inr ''abc'' \<and>
   readRows (Some (JArray [example_row ''YWJj'' [''1'']])) = Ok [\<lparr>Values = [''a'']\<rparr>] \<and>
   readRows (Some (JArray [example_row ''YWJj'' [''4'']])) = Panic SliceBoundsOutOfRange"
  by code_simp

text \<open>
  C2: when every row's text decodes, every length parses and the lengths of each row sum
  to exactly the number of its decoded bytes, \<^verbatim>\<open>readRows\<close> succeeds; each row has one
  value per length, value \<open>i\<close> has the \<open>i\<close>-th length, and the values of a row
  concatenated in order are all of its decoded bytes. (\<open>specs\<close> lists the decoded
  bytes and the parsed lengths \<open>us\<close> of each row, as many as its \<open>lengths\<close> array
  has elements; a Go slice holds fewer than \<open>2 ^ 63\<close> bytes.)
\<close>

theorem readRows_round_trip:
  assumes "list_all2 (\<lambda>v (blob, us). Decode (row_values v) = Inr blob \<and>
              row_lengths v = map Inr us \<and> sum_list (map unat us) = length blob \<and>
              length (row_values v) < 2 ^ 63) r specs"
  shows "\<exists>rows. readRows (Some (JArray r)) = Ok rows \<and> length rows = length r \<and>
           list_all2 (\<lambda>row (blob, us). length (Values row) = length us \<and>
              map length (Values row) = map unat us \<and>
              concat (Values row) = blob) rows specs"
proof -
  have "\<And>v sp. (case sp of (blob, us) \<Rightarrow> Decode (row_values v) = Inr blob \<and>
              row_lengths v = map Inr us \<and> sum_list (map unat us) = length blob \<and>
              length (row_values v) < 2 ^ 63) \<Longrightarrow>
          (case sp of (blob, us) \<Rightarrow> Decode (row_values v) = Inr blob \<and>
              row_lengths v = map Inr us \<and> sum_list (map unat us) \<le> length blob \<and>
              length (row_values v) < 2 ^ 63)"
    by auto
  with assms have le: "list_all2 (\<lambda>v (blob, us). Decode (row_values v) = Inr blob \<and>
              row_lengths v = map Inr us \<and> sum_list (map unat us) \<le> length blob \<and>
              length (row_values v) < 2 ^ 63) r specs"
    by (rule list_all2_mono)
  from assms have sums: "\<forall>sp \<in> set specs. sum_list (map unat (snd sp)) = length (fst sp)"
    by (induction r specs rule: list_all2_induct) auto
  from readRows_within[OF le] obtain rows where r: "readRows_loop r = Ok rows"
    and all: "list_all2 (\<lambda>row (blob, us). map length (Values row) = map unat us \<and>
              concat (Values row) = take (sum_list (map unat us)) blob) rows specs"
    by blast
  from all sums have "list_all2 (\<lambda>row (blob, us). length (Values row) = length us \<and>
              map length (Values row) = map unat us \<and> concat (Values row) = blob) rows specs"
    by (induction rows specs rule: list_all2_induct) (auto dest: map_eq_imp_length_eq)
  moreover from r have "readRows (Some (JArray r)) = Ok rows"
    by (simp add: readRows_def GetArray_def value_at_def)
  moreover from all assms have "length rows = length r"
    by (simp add: list_all2_lengthD)
  ultimately show ?thesis by blast
qed

text \<open>Two rows: \<open>YWJj\<close> cut into 1 and 2 bytes, and \<open>YQ==\<close> (the byte \<open>a\<close>) cut into
  0 and 1 bytes.\<close>

theorem readRows_round_trip_witness:
  "list_all2 (\<lambda>v (blob, us). Decode (row_values v) = Inr blob \<and>
      row_lengths v = map Inr us \<and> sum_list (map unat us) = length blob \<and>
      length (row_values v) < 2 ^ 63)
     [example_row ''YWJj'' [''1'', ''2''], example_row ''YQ=='' [''0'', ''1'']]
     [(''abc'', [1, 2 :: 64 word]), (''a'', [0, 1])] \<and>
   readRows (Some (JArray [example_row ''YWJj'' [''1'', ''2''],
                           example_row ''YQ=='' [''0'', ''1'']])) =
     Ok [\<lparr>Values = [''a'', ''bc'']\<rparr>, \<lparr>Values = [[], ''a'']\<rparr>]"
proof -
  have d: "Decode (row_values (example_row ''YWJj'' [''1'', ''2''])) = Inr ''abc''"
    "Decode (row_values (example_row ''YQ=='' [''0'', ''1''])) = Inr ''a''"
    by code_simp+
  have l: "row_lengths (example_row ''YWJj'' [''1'', ''2'']) = map Inr [1, 2]"
    "row_lengths (example_row ''YQ=='' [''0'', ''1'']) = map Inr [0, 1]"
    by code_simp+
  have n: "length (row_values (example_row ''YWJj'' [''1'', ''2''])) < 2 ^ 63"
    "length (row_values (example_row ''YQ=='' [''0'', ''1''])) < 2 ^ 63"
    by (simp_all add: row_values_def example_row_def GetStringBytes_def value_at_def)
  have h: "list_all2 (\<lambda>v (blob, us). Decode (row_values v) = Inr blob \<and>
      row_lengths v = map Inr us \<and> sum_list (map unat us) = length blob \<and>
      length (row_values v) < 2 ^ 63)
     [example_row ''YWJj'' [''1'', ''2''], example_row ''YQ=='' [''0'', ''1'']]
     [(''abc'', [1, 2 :: 64 word]), (''a'', [0, 1])]"
    using d l n by simp
  from readRows_round_trip[OF h] obtain rows where
    r: "readRows (Some (JArray [example_row ''YWJj'' [''1'', ''2''],
                                 example_row ''YQ=='' [''0'', ''1'']])) = Ok rows"
    by blast
  have "readRows (Some (JArray [example_row ''YWJj'' [''1'', ''2''],
                           example_row ''YQ=='' [''0'', ''1'']])) =
     Ok [\<lparr>Values = [''a'', ''bc'']\<rparr>, \<lparr>Values = [[], ''a'']\<rparr>]"
    by code_simp
  with h r show ?thesis by simp
qed

section \<open>The transport\<close>

text \<open>
  C7, as the code has it: \<^verbatim>\<open>sendRequest\<close> compares the status with
  \<^verbatim>\<open>fsthttp.StatusOK\<close>. A response whose body could be read is accepted, and its body
  returned, when its status is exactly 200; with any other status, the other 2xx codes
  included, the call fails with an error whose message holds the status in decimal and
  the body. Either way the request was handed to the transport.
\<close>

theorem sendRequest_status:
  assumes "Send E ctx (t @ [(backend c, req)]) = Response status (Bytes body)"
  shows "sendRequest E ctx c req t =
           (if status = 200 then Inr body
            else Inl (Errorf (''planetscale API error: '' @ dec_int status @ [CHR 0x0A] @ body)),
            t @ [(backend c, req)])"
  using assms by (simp add: sendRequest_def StatusOK_def Let_def)

text \<open>A backend that answers 200 with the body \<open>{}\<close>.\<close>

theorem sendRequest_status_witness:
  "Send (example_env (Response 200 (Bytes ''{}'')) (Response 200 (Bytes ''{}''))) Background
      ([] @ [(backend example_conn, example_request)]) = Response 200 (Bytes ''{}'') \<and>
   sendRequest (example_env (Response 200 (Bytes ''{}'')) (Response 200 (Bytes ''{}'')))
      Background example_conn example_request [] =
     (Inr ''{}'', [(backend example_conn, example_request)])"
proof -
  have h: "Send (example_env (Response 200 (Bytes ''{}'')) (Response 200 (Bytes ''{}''))) Background
      ([] @ [(backend example_conn, example_request)]) = Response 200 (Bytes ''{}'')"
    by (simp add: example_env_def)
  from sendRequest_status [OF h] h show ?thesis by simp
qed

text \<open>C7 as stated fails: the status 204 is a 2xx code, and the call fails.\<close>

theorem sendRequest_204_counterexample:
  "sendRequest (example_env (Response 200 (Bytes ''{}'')) (Response 204 (Bytes ''done'')))
      Background example_conn example_request [] =
     (Inl (Errorf (''planetscale API error: 204'' @ [CHR 0x0A] @ ''done'')),
      [(''origin'', example_request)])"
  by code_simp

section \<open>Operations the driver does not support\<close>

text \<open>
  C8: \<^verbatim>\<open>Prepare\<close>, \<^verbatim>\<open>Begin\<close> and \<^verbatim>\<open>Rollback\<close> fail with their "not implemented"
  error for every connection, argument and history, and leave the connection and the
  traffic as they were: no request is sent.
\<close>

theorem unsupported_operations:
  "Prepare c query t = (Err (Errorf ''Prepare method not implemented''), c, t) \<and>
   Begin c t = (Err (Errorf ''Begin method not implemented''), c, t) \<and>
   Rollback c t = (Err (Errorf ''Rollback method not implemented''), c, t)"
  by (simp add: Prepare_def Begin_def Rollback_def)

section \<open>The cursor\<close>

lemma int64_in_range: "- (2 ^ 63) \<le> i \<Longrightarrow> i < 2 ^ 63 \<Longrightarrow> int64 i = i"
  by (simp add: int64_def)

lemma Next_at_end:
  assumes "int (length (Rows r)) \<le> pos r" and "pos r < 2 ^ 63 - 1"
  shows "Next r dest = (Err EOF, r, dest)"
proof -
  from assms have "int64 (pos r + 1) = pos r + 1"
    by (intro int64_in_range) simp_all
  with assms(1) show ?thesis by (simp add: Next_def)
qed

lemma Next_step_at_end:
  "int (length (Rows r)) \<le> pos r \<Longrightarrow> pos r < 2 ^ 63 - 1 \<Longrightarrow>
   (Next_step ^^ n) (r, dest) = (r, dest)"
  by (induction n) (simp_all add: Next_step_def Next_at_end)

lemma copyValues_fits:
  "length vs \<le> length dest \<Longrightarrow>
   copyValues vs dest = Ok (map VBytes vs @ drop (length vs) dest)"
proof (induction vs dest rule: copyValues.induct)
  case (1 dest)
  then show ?case by simp
next
  case (2 v vs)
  then show ?case by simp
next
  case (3 v vs d dest)
  then show ?case by simp
qed

text \<open>Before the end a call copies the row and moves the cursor by one, so a cursor that
  starts at 0 stays between 0 and the number of rows and reaches it after that many
  calls.\<close>

lemma Next_advances:
  assumes "0 \<le> pos r" and "pos r < int (length (Rows r))"
    and "length (Rows r) < 2 ^ 63"
    and "length (Values (Rows r ! nat (pos r))) \<le> length dest"
  shows "Next r dest =
           (Ok (), r\<lparr>pos := pos r + 1\<rparr>,
            map VBytes (Values (Rows r ! nat (pos r)))
              @ drop (length (Values (Rows r ! nat (pos r)))) dest)"
proof -
  from assms(3) have "int (length (Rows r)) < 2 ^ 63"
    by (metis of_nat_less_iff of_nat_numeral of_nat_power)
  with assms(1,2) have "int64 (pos r + 1) = pos r + 1"
    by (intro int64_in_range) simp_all
  with assms show ?thesis by (simp add: Next_def copyValues_fits)
qed

text \<open>
  C9: once the cursor has consumed all rows (its position is the number of rows; no
  position that counts the rows of a slice is the largest \<^verbatim>\<open>int\<close>), a call of
  \<^verbatim>\<open>Next\<close> returns \<^verbatim>\<open>io.EOF\<close> and leaves the cursor and the destination as they
  were; so after any number \<open>n\<close> of further calls the state is still the same, and the
  call after them returns \<^verbatim>\<open>io.EOF\<close> again.
\<close>

theorem Next_exhausted:
  assumes "int (length (Rows r)) \<le> pos r" and "pos r < 2 ^ 63 - 1"
  shows "(Next_step ^^ n) (r, dest) = (r, dest) \<and> Next r dest = (Err EOF, r, dest)"
  using assms by (simp add: Next_step_at_end Next_at_end)

text \<open>A result of one row: the first call returns it, every later call is at the end.\<close>

theorem Next_exhausted_witness:
  "Next \<lparr>Fields = [], Rows = [\<lparr>Values = [''a'']\<rparr>], pos = 0\<rparr> [VNil] =
     (Ok (), \<lparr>Fields = [], Rows = [\<lparr>Values = [''a'']\<rparr>], pos = 1\<rparr>, [VBytes ''a'']) \<and>
   int (length (Rows \<lparr>Fields = [], Rows = [\<lparr>Values = [''a'']\<rparr>], pos = 1\<rparr>))
     \<le> pos \<lparr>Fields = [], Rows = [\<lparr>Values = [''a'']\<rparr>], pos = 1\<rparr> \<and>
   pos \<lparr>Fields = [], Rows = [\<lparr>Values = [''a'']\<rparr>], pos = 1\<rparr> < 2 ^ 63 - 1 \<and>
   (Next_step ^^ 3) (\<lparr>Fields = [], Rows = [\<lparr>Values = [''a'']\<rparr>], pos = 1\<rparr>, [VBytes ''a'']) =
     (\<lparr>Fields = [], Rows = [\<lparr>Values = [''a'']\<rparr>], pos = 1\<rparr>, [VBytes ''a'']) \<and>
   Next \<lparr>Fields = [], Rows = [\<lparr>Values = [''a'']\<rparr>], pos = 1\<rparr> [VBytes ''a''] =
     (Err EOF, \<lparr>Fields = [], Rows = [\<lparr>Values = [''a'']\<rparr>], pos = 1\<rparr>, [VBytes ''a''])"
proof -
  have first: "Next \<lparr>Fields = [], Rows = [\<lparr>Values = [''a'']\<rparr>], pos = 0\<rparr> [VNil] =
     (Ok (), \<lparr>Fields = [], Rows = [\<lparr>Values = [''a'']\<rparr>], pos = 1\<rparr>, [VBytes ''a''])"
    by (simp add: Next_def int64_def)
  have h: "int (length (Rows \<lparr>Fields = [], Rows = [\<lparr>Values = [''a'']\<rparr>], pos = 1\<rparr>))
     \<le> pos \<lparr>Fields = [], Rows = [\<lparr>Values = [''a'']\<rparr>], pos = 1\<rparr>"
    by simp
  have b: "pos \<lparr>Fields = [], Rows = [\<lparr>Values = [''a'']\<rparr>], pos = 1\<rparr> < 2 ^ 63 - 1"
    by simp
  from Next_exhausted [OF h b, of 3 "[VBytes ''a'']"] first h b show ?thesis by blast
qed

section \<open>Queries\<close>

text \<open>
  C10: \<^verbatim>\<open>Query\<close> and \<^verbatim>\<open>QueryContext\<close> never look at \<open>args\<close>. With the same query
  text, connection, history and backend, two calls with different arguments return the
  same result, leave the same connection and have sent the same requests, bodies
  included.
\<close>

theorem args_ignored:
  "QueryContext E ctx query args c t = QueryContext E ctx query args' c t \<and>
   Query E query args c t = Query E query args' c t"
  by (simp add: QueryContext_def Query_def)

subsection \<open>What the exchanges send and keep\<close>

lemma sendRequest_traffic: "snd (sendRequest E ctx c req t) = t @ [(backend c, req)]"
  by (simp add: sendRequest_def Let_def split: send_result.splits read_result.splits)

lemma buildRequest_URL:
  "buildRequest E c endpoint body = Inr req \<Longrightarrow> URL req = ''https://'' @ host c @ endpoint"
  by (auto simp: buildRequest_def Let_def split: option.splits)

lemma endpoints_differ: "executorEndpoint \<noteq> sessionEndpoint"
  by (simp add: executorEndpoint_def sessionEndpoint_def)

lemma readResponse_session:
  "GetObject (Some v) (Some ''session'') = Some sess \<Longrightarrow>
   session (snd (readResponse E v c)) = Some (marshal_object E sess)"
  by (simp add: readResponse_def Let_def split: option.splits res.splits)

lemma readResponse_keeps:
  "host (snd (readResponse E v c)) = host c \<and> backend (snd (readResponse E v c)) = backend c \<and>
   (session c \<noteq> None \<longrightarrow> session (snd (readResponse E v c)) \<noteq> None)"
  by (simp add: readResponse_def Let_def split: option.splits res.splits)

lemma readResponse_error:
  "GetObject (Some v) (Some ''error'') = Some jsonErr \<Longrightarrow>
   readResponse E v c =
     (case object_Get jsonErr ''message'' of
        Some msg \<Rightarrow> Err (Errorf (GetStringBytes (Some msg) None))
      | None \<Rightarrow> Err unknownError,
      case GetObject (Some v) (Some ''session'') of
        None \<Rightarrow> c
      | Some sess \<Rightarrow> c\<lparr>session := Some (marshal_object E sess)\<rparr>)"
  by (simp add: readResponse_def Let_def split: option.splits)

lemma execute_response:
  assumes \<open>json_Marshal E query = Inr q\<close>
    and \<open>buildRequest E c executorEndpoint
           (''{"query":'' @ q @ '',"session":'' @ (case session c of None \<Rightarrow> [] | Some s \<Rightarrow> s) @ ''}'')
         = Inr req\<close>
    and \<open>Send E ctx (t @ [(backend c, req)]) = Response 200 (Bytes resp)\<close>
    and \<open>ParseBytes E resp = Inr v\<close>
  shows \<open>execute E ctx query c t =
           (fst (readResponse E v c), snd (readResponse E v c), t @ [(backend c, req)])\<close>
  using assms
  by (simp add: execute_def sendRequest_def StatusOK_def Let_def split: prod.splits)

lemma QueryContext_execute:
  assumes "(if session c0 = None then refreshSession E ctx c0 t0 else (Ok (), c0, t0)) = (Ok (), c, t)"
  shows "QueryContext E ctx query args c0 t0 = execute E ctx query c t"
  using assms by (auto simp: QueryContext_def split: if_splits)

lemma refreshSession_traffic:
  assumes "buildRequest E c sessionEndpoint ''{}'' = Inr sreq"
  shows "snd (snd (refreshSession E ctx c t)) = t @ [(backend c, sreq)] \<and>
         host (fst (snd (refreshSession E ctx c t))) = host c \<and>
         backend (fst (snd (refreshSession E ctx c t))) = backend c \<and>
         (fst (refreshSession E ctx c t) = Ok () \<longrightarrow>
            session (fst (snd (refreshSession E ctx c t))) \<noteq> None)"
proof -
  obtain r t' where s: "sendRequest E ctx c sreq t = (r, t')" by (cases "sendRequest E ctx c sreq t")
  with sendRequest_traffic[of E ctx c sreq t] have t': "t' = t @ [(backend c, sreq)]" by simp
  show ?thesis
    using assms s t'
    by (simp add: refreshSession_def MarshalTo_def Let_def split: sum.splits option.splits)
qed

lemma execute_traffic:
  "\<exists>new. snd (snd (execute E ctx query c t)) = t @ new \<and> session_exchanges c new = [] \<and>
         length new \<le> 1 \<and>
         host (fst (snd (execute E ctx query c t))) = host c \<and>
         (session c \<noteq> None \<longrightarrow> session (fst (snd (execute E ctx query c t))) \<noteq> None)"
proof (cases "json_Marshal E query")
  case (Inl e)
  then show ?thesis by (simp add: execute_def session_exchanges_def)
next
  case (Inr q)
  let ?body = \<open>''{"query":'' @ q @ '',"session":'' @ (case session c of None \<Rightarrow> [] | Some s \<Rightarrow> s) @ ''}''\<close>
  show ?thesis
  proof (cases "buildRequest E c executorEndpoint ?body")
    case (Inl e)
    with Inr show ?thesis by (simp add: execute_def session_exchanges_def)
  next
    case req: (Inr req)
    from buildRequest_URL[OF req] have url: "URL req = ''https://'' @ host c @ executorEndpoint" .
    with endpoints_differ have no: "session_exchanges c [(backend c, req)] = []"
      by (simp add: session_exchanges_def)
    obtain r t' where s: "sendRequest E ctx c req t = (r, t')" by (cases "sendRequest E ctx c req t")
    with sendRequest_traffic[of E ctx c req t] have t': "t' = t @ [(backend c, req)]" by simp
    show ?thesis
    proof (cases r)
      case (Inl e)
      with Inr req s t' no show ?thesis by (simp add: execute_def)
    next
      case resp: (Inr resp)
      show ?thesis
      proof (cases "ParseBytes E resp")
        case (Inl e)
        with Inr req s t' no resp show ?thesis by (simp add: execute_def)
      next
        case v: (Inr v)
        obtain rr c' where rd: "readResponse E v c = (rr, c')" by (cases "readResponse E v c")
        with readResponse_keeps[of E v c] have "host c' = host c"
          and "session c \<noteq> None \<longrightarrow> session c' \<noteq> None"
          by simp_all
        with Inr req s t' no resp v rd show ?thesis
          by (simp add: execute_def)
      qed
    qed
  qed
qed

subsection \<open>The response of the execute exchange\<close>

text \<open>
  C4: take any query, on a fresh connection or one that holds a session, that gets as far
  as an execute response which is accepted and parses to \<open>v\<close>. If \<open>v\<close> has a
  \<open>session\<close> object, the session the connection holds after the call is exactly the
  bytes \<^verbatim>\<open>MarshalTo\<close> gives for that object, written onto an empty slice, so nothing of
  the previous session is left. Nothing is assumed about \<open>error\<close> or \<open>result\<close> in
  \<open>v\<close>: the session is replaced before either is looked at.
\<close>

theorem session_rotation:
  assumes \<open>(if session c0 = None then refreshSession E ctx c0 t0 else (Ok (), c0, t0)) = (Ok (), c, t)\<close>
    and \<open>json_Marshal E query = Inr q\<close>
    and \<open>buildRequest E c executorEndpoint
           (''{"query":'' @ q @ '',"session":'' @ (case session c of None \<Rightarrow> [] | Some s \<Rightarrow> s) @ ''}'')
         = Inr req\<close>
    and \<open>Send E ctx (t @ [(backend c, req)]) = Response 200 (Bytes resp)\<close>
    and \<open>ParseBytes E resp = Inr v\<close>
    and \<open>GetObject (Some v) (Some ''session'') = Some sess\<close>
  shows \<open>session (fst (snd (QueryContext E ctx query args c0 t0))) = Some (marshal_object E sess)\<close>
proof -
  from QueryContext_execute[OF assms(1)] execute_response[OF assms(2-5)]
  have "QueryContext E ctx query args c0 t0 =
          (fst (readResponse E v c), snd (readResponse E v c), t @ [(backend c, req)])"
    by simp
  with readResponse_session[OF assms(6)] show ?thesis by simp
qed

text \<open>A fresh connection whose first execute response holds the session \<open>s2\<close> beside an
  error: the query fails with the error, and the connection holds \<open>s2\<close>, not the
  session \<open>s1\<close> it was created with.\<close>

theorem session_rotation_witness:
  \<open>QueryContext (example_env example_created example_failed) Background ''select 1'' []
      example_conn [] =
     (Err (Errorf ''boom''), example_conn\<lparr>session := Some example_session2\<rparr>,
      [(''origin'', example_session_request),
       (''origin'', example_execute_request ''{"query":"select 1","session":{"id":"s1"}}'')]) \<and>
   session (fst (snd (QueryContext (example_env example_created example_failed) Background
      ''select 1'' [] example_conn []))) =
     Some (marshal_object (example_env example_created example_failed) [(''id'', JString ''s2'')])\<close>
proof -
  let ?E = "example_env example_created example_failed"
  let ?c = "example_conn\<lparr>session := Some example_session1\<rparr>"
  let ?t = "[(''origin'', example_session_request)]"
  have h1: "(if session example_conn = None then refreshSession ?E Background example_conn []
             else (Ok (), example_conn, [])) = (Ok (), ?c, ?t)"
    by code_simp
  have h2: \<open>json_Marshal ?E ''select 1'' = Inr ''"select 1"''\<close>
    by code_simp
  have h3: \<open>buildRequest ?E ?c executorEndpoint
              (''{"query":'' @ ''"select 1"'' @ '',"session":''
                 @ (case session ?c of None \<Rightarrow> [] | Some s \<Rightarrow> s) @ ''}'')
            = Inr (example_execute_request ''{"query":"select 1","session":{"id":"s1"}}'')\<close>
    by code_simp
  have h4: \<open>Send ?E Background
              (?t @ [(backend ?c, example_execute_request ''{"query":"select 1","session":{"id":"s1"}}'')])
            = Response 200 (Bytes example_failed_body)\<close>
    by code_simp
  have h5: "ParseBytes ?E example_failed_body = Inr example_failed_tree"
    by code_simp
  have h6: "GetObject (Some example_failed_tree) (Some ''session'') = Some [(''id'', JString ''s2'')]"
    by code_simp
  have run: \<open>QueryContext ?E Background ''select 1'' [] example_conn [] =
     (Err (Errorf ''boom''), example_conn\<lparr>session := Some example_session2\<rparr>,
      [(''origin'', example_session_request),
       (''origin'', example_execute_request ''{"query":"select 1","session":{"id":"s1"}}'')])\<close>
    by code_simp
  from session_rotation [OF h1 h2 h3 h4 h5 h6, of "[]"] run show ?thesis by simp
qed

text \<open>
  C5: take any query that gets as far as an execute response which is accepted and parses
  to \<open>v\<close>. If \<open>v\<close> has an \<open>error\<close> object, the query fails: with an error whose
  message is the \<open>message\<close> string when the object has one, with \<^verbatim>\<open>unknownError\<close>
  when it has no \<open>message\<close>. The whole outcome (the error, the connection, the requests
  sent) is fixed by the \<open>error\<close> and \<open>session\<close> objects alone, whatever else \<open>v\<close>
  holds: \<open>result\<close> is not read.
\<close>

theorem error_short_circuit:
  assumes \<open>(if session c0 = None then refreshSession E ctx c0 t0 else (Ok (), c0, t0)) = (Ok (), c, t)\<close>
    and \<open>json_Marshal E query = Inr q\<close>
    and \<open>buildRequest E c executorEndpoint
           (''{"query":'' @ q @ '',"session":'' @ (case session c of None \<Rightarrow> [] | Some s \<Rightarrow> s) @ ''}'')
         = Inr req\<close>
    and \<open>Send E ctx (t @ [(backend c, req)]) = Response 200 (Bytes resp)\<close>
    and \<open>ParseBytes E resp = Inr v\<close>
    and \<open>GetObject (Some v) (Some ''error'') = Some jsonErr\<close>
  shows \<open>QueryContext E ctx query args c0 t0 =
           (case object_Get jsonErr ''message'' of
              Some msg \<Rightarrow> Err (Errorf (GetStringBytes (Some msg) None))
            | None \<Rightarrow> Err unknownError,
            case GetObject (Some v) (Some ''session'') of
              None \<Rightarrow> c
            | Some sess \<Rightarrow> c\<lparr>session := Some (marshal_object E sess)\<rparr>,
            t @ [(backend c, req)]) \<and>
         (\<forall>m. object_Get jsonErr ''message'' = Some (JString m) \<longrightarrow>
              fst (QueryContext E ctx query args c0 t0) = Err (Errorf m)) \<and>
         (object_Get jsonErr ''message'' = None \<longrightarrow>
              fst (QueryContext E ctx query args c0 t0) = Err unknownError)\<close>
proof -
  from QueryContext_execute[OF assms(1)] execute_response[OF assms(2-5)]
  have "QueryContext E ctx query args c0 t0 =
          (fst (readResponse E v c), snd (readResponse E v c), t @ [(backend c, req)])"
    by simp
  with readResponse_error[OF assms(6), of E c] show ?thesis
    by (simp add: GetStringBytes_def value_at_def)
qed

text \<open>A response with an error and a result that has no fields: the query fails with the
  error's message, not with "missing fields".\<close>

theorem error_short_circuit_witness:
  \<open>GetObject (Some example_failed_tree) (Some ''error'') = Some [(''message'', JString ''boom'')] \<and>
   GetObject (Some example_failed_tree) (Some ''result'') = Some [] \<and>
   fst (QueryContext (example_env example_created example_failed) Background ''select 1'' []
      example_conn []) = Err (Errorf ''boom'')\<close>
proof -
  let ?E = "example_env example_created example_failed"
  let ?c = "example_conn\<lparr>session := Some example_session1\<rparr>"
  let ?t = "[(''origin'', example_session_request)]"
  have h1: "(if session example_conn = None then refreshSession ?E Background example_conn []
             else (Ok (), example_conn, [])) = (Ok (), ?c, ?t)"
    by code_simp
  have h2: \<open>json_Marshal ?E ''select 1'' = Inr ''"select 1"''\<close>
    by code_simp
  have h3: \<open>buildRequest ?E ?c executorEndpoint
              (''{"query":'' @ ''"select 1"'' @ '',"session":''
                 @ (case session ?c of None \<Rightarrow> [] | Some s \<Rightarrow> s) @ ''}'')
            = Inr (example_execute_request ''{"query":"select 1","session":{"id":"s1"}}'')\<close>
    by code_simp
  have h4: \<open>Send ?E Background
              (?t @ [(backend ?c, example_execute_request ''{"query":"select 1","session":{"id":"s1"}}'')])
            = Response 200 (Bytes example_failed_body)\<close>
    by code_simp
  have h5: "ParseBytes ?E example_failed_body = Inr example_failed_tree"
    by code_simp
  have h6: "GetObject (Some example_failed_tree) (Some ''error'') = Some [(''message'', JString ''boom'')]"
    by code_simp
  have h7: "GetObject (Some example_failed_tree) (Some ''result'') = Some []"
    by code_simp
  from error_short_circuit [OF h1 h2 h3 h4 h5 h6, of "[]"] h6 h7 show ?thesis
    by (simp add: GetStringBytes_def value_at_def)
qed

subsection \<open>Creating the session\<close>

text \<open>
  C3 fails on the code. On a connection with no session, when the session-creation
  response is accepted (status 200) and its body either does not parse or parses to a
  value without a \<open>session\<close> object, \<^verbatim>\<open>refreshSession\<close> calls \<^verbatim>\<open>MarshalTo\<close> on a
  nil object: the query panics, having set the session to the empty slice, and returns no
  error. \<^verbatim>\<open>QueryContext\<close> tests both conditions for the execute response.
\<close>

theorem refreshSession_without_session_panics:
  assumes "session c = None"
    and "buildRequest E c sessionEndpoint ''{}'' = Inr sreq"
    and "Send E ctx (t @ [(backend c, sreq)]) = Response 200 (Bytes body)"
    and "GetObject (case ParseBytes E body of Inl e \<Rightarrow> None | Inr j \<Rightarrow> Some j) (Some ''session'') = None"
  shows "QueryContext E ctx query args c t =
           (Panic NilPointerDereference, c\<lparr>session := Some []\<rparr>, t @ [(backend c, sreq)])"
  using assms
  by (simp add: QueryContext_def refreshSession_def sendRequest_def StatusOK_def MarshalTo_def Let_def)

text \<open>The session endpoint answers 200 with a body that is not JSON.\<close>

theorem refreshSession_without_session_panics_witness:
  "QueryContext (example_env (Response 200 (Bytes ''<html>'')) example_answered) Background
      ''select 1'' [] example_conn [] =
     (Panic NilPointerDereference, example_conn\<lparr>session := Some []\<rparr>,
      [(''origin'', example_session_request)])"
proof -
  let ?E = "example_env (Response 200 (Bytes ''<html>'')) example_answered"
  have h1: "session example_conn = None"
    by code_simp
  have h2: "buildRequest ?E example_conn sessionEndpoint ''{}'' = Inr example_session_request"
    by code_simp
  have h3: "Send ?E Background ([] @ [(backend example_conn, example_session_request)]) =
              Response 200 (Bytes ''<html>'')"
    by code_simp
  have h4: "GetObject (case ParseBytes ?E ''<html>'' of Inl e \<Rightarrow> None | Inr j \<Rightarrow> Some j)
              (Some ''session'') = None"
    by code_simp
  have b: "backend example_conn = ''origin''"
    by code_simp
  from refreshSession_without_session_panics [OF h1 h2 h3 h4, of "''select 1''" "[]"] b
  show ?thesis by simp
qed

text \<open>The session endpoint answers 200 with the JSON object \<open>{}\<close>.\<close>

lemma refreshSession_empty_object_panics:
  "QueryContext (example_env (Response 200 (Bytes ''{}'')) example_answered) Background
      ''select 1'' [] example_conn [] =
     (Panic NilPointerDereference, example_conn\<lparr>session := Some []\<rparr>,
      [(''origin'', example_session_request)])"
  by code_simp

text \<open>
  C6: on a connection with no session whose session request can be built, the requests a
  query sends are the session-creation request first and then at most one more, which is
  not a session-creation request: exactly one session-creation exchange, before the
  execute exchange; and if the query got as far as the execute exchange, the connection
  holds a session afterwards. On a connection that holds a session, a query sends at most
  one request, no session-creation request, and the connection still holds a session
  afterwards, so the same is true of every later query.
\<close>

theorem session_bootstrap:
  "(session c = None \<and> buildRequest E c sessionEndpoint ''{}'' = Inr sreq \<longrightarrow>
      (\<exists>rest. snd (snd (QueryContext E ctx query args c t)) = t @ (backend c, sreq) # rest \<and>
          session_exchanges c [(backend c, sreq)] = [(backend c, sreq)] \<and>
          session_exchanges c rest = [] \<and> length rest \<le> 1 \<and>
          (rest \<noteq> [] \<longrightarrow> session (fst (snd (QueryContext E ctx query args c t))) \<noteq> None))) \<and>
   (session c \<noteq> None \<longrightarrow>
      (\<exists>new. snd (snd (QueryContext E ctx query args c t)) = t @ new \<and>
          session_exchanges c new = [] \<and> length new \<le> 1 \<and>
          session (fst (snd (QueryContext E ctx query args c t))) \<noteq> None))"
proof (intro conjI impI)
  assume a: "session c = None \<and> buildRequest E c sessionEndpoint ''{}'' = Inr sreq"
  then have fresh: "session c = None" and b: "buildRequest E c sessionEndpoint ''{}'' = Inr sreq"
    by simp_all
  from buildRequest_URL[OF b] have own: "session_exchanges c [(backend c, sreq)] = [(backend c, sreq)]"
    by (simp add: session_exchanges_def)
  obtain r c1 t1 where rs: "refreshSession E ctx c t = (r, c1, t1)"
    by (cases "refreshSession E ctx c t") auto
  from refreshSession_traffic[OF b, of ctx t] rs
  have t1: "t1 = t @ [(backend c, sreq)]" and h1: "host c1 = host c"
    and s1: "r = Ok () \<longrightarrow> session c1 \<noteq> None"
    by simp_all
  show "\<exists>rest. snd (snd (QueryContext E ctx query args c t)) = t @ (backend c, sreq) # rest \<and>
          session_exchanges c [(backend c, sreq)] = [(backend c, sreq)] \<and>
          session_exchanges c rest = [] \<and> length rest \<le> 1 \<and>
          (rest \<noteq> [] \<longrightarrow> session (fst (snd (QueryContext E ctx query args c t))) \<noteq> None)"
  proof (cases r)
    case (Ok u)
    with fresh rs have q: "QueryContext E ctx query args c t = execute E ctx query c1 t1"
      by (simp add: QueryContext_def)
    from execute_traffic[of E ctx query c1 t1] obtain new where
      n: "snd (snd (execute E ctx query c1 t1)) = t1 @ new"
      and e: "session_exchanges c1 new = []"
      and l: "length new \<le> 1"
      and s: "session c1 \<noteq> None \<longrightarrow> session (fst (snd (execute E ctx query c1 t1))) \<noteq> None"
      by blast
    from e h1 have "session_exchanges c new = []" by (simp add: session_exchanges_def)
    moreover from Ok s1 s have "session (fst (snd (execute E ctx query c1 t1))) \<noteq> None" by simp
    ultimately show ?thesis using q n t1 own l by simp
  next
    case (Err e)
    with fresh rs have "QueryContext E ctx query args c t = (Err e, c1, t1)"
      by (simp add: QueryContext_def)
    with t1 own show ?thesis by (simp add: session_exchanges_def)
  next
    case (Panic p)
    with fresh rs have "QueryContext E ctx query args c t = (Panic p, c1, t1)"
      by (simp add: QueryContext_def)
    with t1 own show ?thesis by (simp add: session_exchanges_def)
  qed
next
  assume held: "session c \<noteq> None"
  then have q: "QueryContext E ctx query args c t = execute E ctx query c t"
    by (auto simp: QueryContext_def)
  from execute_traffic[of E ctx query c t] held q
  show "\<exists>new. snd (snd (QueryContext E ctx query args c t)) = t @ new \<and>
          session_exchanges c new = [] \<and> length new \<le> 1 \<and>
          session (fst (snd (QueryContext E ctx query args c t))) \<noteq> None"
    by auto
qed

text \<open>Two queries in a row on a fresh connection: the first sends the session request and
  the execute request, the second only its execute request, with the rotated session.\<close>

theorem session_bootstrap_witness:
  \<open>session example_conn = None \<and>
   snd (snd (QueryContext (example_env example_created example_answered) Background ''select 1'' []
      example_conn [])) =
     [] @ (backend example_conn, example_session_request) #
     [(''origin'', example_execute_request ''{"query":"select 1","session":{"id":"s1"}}'')] \<and>
   session_exchanges example_conn
     [(''origin'', example_execute_request ''{"query":"select 1","session":{"id":"s1"}}'')] = [] \<and>
   fst (snd (QueryContext (example_env example_created example_answered) Background ''select 1'' []
      example_conn [])) = example_conn\<lparr>session := Some example_session2\<rparr> \<and>
   snd (snd (QueryContext (example_env example_created example_answered) Background ''select 2'' []
      (example_conn\<lparr>session := Some example_session2\<rparr>)
      [(''origin'', example_session_request),
       (''origin'', example_execute_request ''{"query":"select 1","session":{"id":"s1"}}'')])) =
     [(''origin'', example_session_request),
      (''origin'', example_execute_request ''{"query":"select 1","session":{"id":"s1"}}'')] @
     [(''origin'', example_execute_request ''{"query":"select 2","session":{"id":"s2"}}'')] \<and>
   session_exchanges (example_conn\<lparr>session := Some example_session2\<rparr>)
     [(''origin'', example_execute_request ''{"query":"select 2","session":{"id":"s2"}}'')] = []\<close>
proof -
  let ?E = "example_env example_created example_answered"
  have f: "session example_conn = None \<and>
           buildRequest ?E example_conn sessionEndpoint ''{}'' = Inr example_session_request"
    by code_simp
  have g: "session (example_conn\<lparr>session := Some example_session2\<rparr>) \<noteq> None"
    by simp
  have first: \<open>QueryContext ?E Background ''select 1'' [] example_conn [] =
      (Ok \<lparr>Fields = [\<lparr>Name = ''a'', Type = [], Table = [], ColumnLength = 0, Charset = 0, Flags = 0\<rparr>,
                      \<lparr>Name = ''b'', Type = [], Table = [], ColumnLength = 0, Charset = 0, Flags = 0\<rparr>],
           Rows = [\<lparr>Values = [''a'', ''bc'']\<rparr>], pos = 0\<rparr>,
       example_conn\<lparr>session := Some example_session2\<rparr>,
       [(''origin'', example_session_request),
        (''origin'', example_execute_request ''{"query":"select 1","session":{"id":"s1"}}'')])\<close>
    by code_simp
  have second: \<open>snd (snd (QueryContext ?E Background ''select 2'' []
      (example_conn\<lparr>session := Some example_session2\<rparr>)
      [(''origin'', example_session_request),
       (''origin'', example_execute_request ''{"query":"select 1","session":{"id":"s1"}}'')])) =
     [(''origin'', example_session_request),
      (''origin'', example_execute_request ''{"query":"select 1","session":{"id":"s1"}}''),
      (''origin'', example_execute_request ''{"query":"select 2","session":{"id":"s2"}}'')]\<close>
    by code_simp
  have b: "backend example_conn = ''origin''"
    by code_simp
  from session_bootstrap [of example_conn ?E example_session_request Background "''select 1''" "[]" "[]"] f
  obtain rest where
    r: "snd (snd (QueryContext ?E Background ''select 1'' [] example_conn [])) =
          [] @ (backend example_conn, example_session_request) # rest"
    and n: "session_exchanges example_conn rest = []"
    by blast
  from r first b have \<open>rest = [(''origin'', example_execute_request ''{"query":"select 1","session":{"id":"s1"}}'')]\<close>
    by simp
  with n have n1: \<open>session_exchanges example_conn
     [(''origin'', example_execute_request ''{"query":"select 1","session":{"id":"s1"}}'')] = []\<close>
    by simp
  have n2: \<open>session_exchanges (example_conn\<lparr>session := Some example_session2\<rparr>)
     [(''origin'', example_execute_request ''{"query":"select 2","session":{"id":"s2"}}'')] = []\<close>
    by code_simp
  from f first second b n1 n2 show ?thesis by simp
qed

end
